theory Spec2Isabelle
  imports
    Main
    "HOL-Library.Sublist"
    "HOL-Library.Char_ord"
    "HOL-Library.List_Lexorder"
    "HOL-Library.Multiset"
begin

section \<open>The documentation aggregator \<^verbatim>\<open>scripts/generate_agents_md.py\<close>\<close>

text \<open>
  The script lists \<^verbatim>\<open>docs/code-howtos\<close>, and for every name ending in \<^verbatim>\<open>.md\<close> other than
  \<^verbatim>\<open>index.md\<close>, in sorted order, appends a titled section to \<^verbatim>\<open>AGENTS.md\<close>.

  Text is modelled as \<^typ>\<open>string\<close>, at the level of what \<^verbatim>\<open>infile.read()\<close> returns and
  \<^verbatim>\<open>outfile.write\<close> receives. Whether the bytes of a file decode, and whether a text can be
  encoded and written, is part of the environment; newline translation of Python's text
  mode is below the model. Case conversion is modelled for ASCII text only: the model of
  \<^verbatim>\<open>str.title()\<close> agrees with Python on ASCII strings, and what is stated about titles is
  stated for ASCII names.
\<close>

subsection \<open>Python's string methods\<close>

text \<open>\<^verbatim>\<open>s.startswith(p)\<close> and \<^verbatim>\<open>s.endswith(p)\<close>.\<close>

definition startswith :: "string \<Rightarrow> string \<Rightarrow> bool" where
  "startswith s p = prefix p s"

definition endswith :: "string \<Rightarrow> string \<Rightarrow> bool" where
  "endswith s p = suffix p s"

text \<open>
  \<^verbatim>\<open>s.split(sep)\<close> for a non-empty separator: the text is scanned from the left, every
  occurrence found ends a part and the scan resumes behind it, so occurrences do not
  overlap. The result always has at least one part. (Python raises \<^verbatim>\<open>ValueError\<close> for an
  empty separator; both separators of the script are non-empty literals, and the model
  returns the text as its only part there.)
\<close>

fun py_split :: "string \<Rightarrow> string \<Rightarrow> string list" where
  "py_split sep [] = [[]]"
| "py_split sep (c # cs) =
     (if sep \<noteq> [] \<and> prefix sep (c # cs)
      then [] # py_split sep (drop (length sep) (c # cs))
      else (case py_split sep cs of
              [] \<Rightarrow> [[c]]
            | p # ps \<Rightarrow> (c # p) # ps))"

text \<open>\<^verbatim>\<open>sep.join(parts)\<close>.\<close>

fun py_join :: "string \<Rightarrow> string list \<Rightarrow> string" where
  "py_join sep [] = []"
| "py_join sep [p] = p"
| "py_join sep (p # q # ps) = p @ sep @ py_join sep (q # ps)"

text \<open>\<^verbatim>\<open>s.replace(old, new)\<close> for a non-empty \<^verbatim>\<open>old\<close>: every non-overlapping occurrence,
  found from the left, is replaced.\<close>

definition py_replace :: "string \<Rightarrow> string \<Rightarrow> string \<Rightarrow> string" where
  "py_replace old new s = py_join new (py_split old s)"

text \<open>The ASCII characters are those below 128, and the ASCII letters and the case mappings
  on them follow. Unicode case mapping outside ASCII is not modelled.\<close>

definition is_ascii :: "char \<Rightarrow> bool" where
  "is_ascii c = (\<not> digit7 c)"

definition ascii_lowercase :: string where
  "ascii_lowercase = ''abcdefghijklmnopqrstuvwxyz''"

definition ascii_uppercase :: string where
  "ascii_uppercase = ''ABCDEFGHIJKLMNOPQRSTUVWXYZ''"

definition is_lower :: "char \<Rightarrow> bool" where
  "is_lower c = (c \<in> set ascii_lowercase)"

definition is_upper :: "char \<Rightarrow> bool" where
  "is_upper c = (c \<in> set ascii_uppercase)"

definition is_cased :: "char \<Rightarrow> bool" where
  "is_cased c = (is_lower c \<or> is_upper c)"

definition to_upper :: "char \<Rightarrow> char" where
  "to_upper c = (case map_of (zip ascii_lowercase ascii_uppercase) c of
                   Some u \<Rightarrow> u | None \<Rightarrow> c)"

definition to_lower :: "char \<Rightarrow> char" where
  "to_lower c = (case map_of (zip ascii_uppercase ascii_lowercase) c of
                   Some l \<Rightarrow> l | None \<Rightarrow> c)"

text \<open>
  \<^verbatim>\<open>s.title()\<close> for an ASCII string: one pass with the flag \<^verbatim>\<open>previous_is_cased\<close>. A
  character that follows a cased character is lowercased, any other character is
  titlecased, and the flag becomes whether the character read is cased. Outside ASCII
  Python maps case by the Unicode tables (and may change the length of the text); that is
  not modelled, and the model leaves such characters as they are.
\<close>

fun title_from :: "bool \<Rightarrow> string \<Rightarrow> string" where
  "title_from previous_is_cased [] = []"
| "title_from previous_is_cased (c # cs) =
     (if previous_is_cased then to_lower c else to_upper c) # title_from (is_cased c) cs"

definition py_title :: "string \<Rightarrow> string" where
  "py_title s = title_from False s"

subsection \<open>\<^verbatim>\<open>os.path\<close>\<close>

text \<open>\<^verbatim>\<open>s.rfind(c)\<close> for a one-character \<^verbatim>\<open>c\<close>: the highest index of \<^verbatim>\<open>c\<close>, or \<open>-1\<close>.\<close>

fun py_rfind :: "string \<Rightarrow> char \<Rightarrow> int" where
  "py_rfind [] c = -1"
| "py_rfind (x # xs) c =
     (let r = py_rfind xs c in
      if 0 \<le> r then r + 1 else if x = c then 0 else -1)"

text \<open>
  \<^verbatim>\<open>os.path.splitext(p)\<close> (POSIX): the extension starts at the last dot of the last path
  component, unless only dots come before it in that component (leading dots belong to
  the root).
\<close>

definition splitext :: "string \<Rightarrow> string \<times> string" where
  "splitext p =
     (let sepIndex = py_rfind p (CHR ''/'');
          dotIndex = py_rfind p (CHR ''.'')
      in if sepIndex < dotIndex \<and>
            list_ex (\<lambda>ch. ch \<noteq> CHR ''.'')
              (drop (nat (sepIndex + 1)) (take (nat dotIndex) p))
         then (take (nat dotIndex) p, drop (nat dotIndex) p)
         else (p, []))"

text \<open>\<^verbatim>\<open>os.path.join(a, b)\<close> (POSIX) for two components.\<close>

definition path_join :: "string \<Rightarrow> string \<Rightarrow> string" where
  "path_join a b =
     (if startswith b ''/'' then b
      else if a = [] \<or> endswith a ''/'' then a @ b
      else a @ ''/'' @ b)"

subsection \<open>\<^verbatim>\<open>adjust_header_levels\<close>\<close>

text \<open>The loop over the lines, appending to \<^verbatim>\<open>new_lines\<close>.\<close>

fun adjust_lines :: "string list \<Rightarrow> string list" where
  "adjust_lines [] = []"
| "adjust_lines (line # lines) =
     (if startswith line ''#'' then ''#'' @ line else line) # adjust_lines lines"

definition adjust_header_levels :: "string \<Rightarrow> string" where
  "adjust_header_levels content =
     py_join ''\<newline>'' (adjust_lines (py_split ''\<newline>'' content))"

subsection \<open>\<^verbatim>\<open>main\<close>\<close>

definition docs_path :: string where
  "docs_path = ''docs/code-howtos''"

text \<open>
  What makes reading a path fail: \<^verbatim>\<open>open(filepath, "r")\<close> raises an \<^verbatim>\<open>OSError\<close>, or
  \<^verbatim>\<open>infile.read()\<close> raises \<^verbatim>\<open>UnicodeDecodeError\<close> because the bytes of the file are not valid
  in the encoding. What makes \<^verbatim>\<open>outfile.write\<close> fail: the text cannot be encoded
  (\<^verbatim>\<open>UnicodeEncodeError\<close>), or the operating system refuses the write (\<^verbatim>\<open>OSError\<close>).
\<close>

datatype read_failure = CannotOpen | CannotDecode

datatype write_failure = CannotEncode | CannotWrite

text \<open>
  The file system as the script sees it: the listing of \<^verbatim>\<open>docs_path\<close> (\<open>None\<close> when
  \<^verbatim>\<open>os.listdir\<close> raises), the text of each path (\<open>None\<close> when opening or reading it
  raises, and then \<open>read_failure\<close> says which of the two), whether \<^verbatim>\<open>AGENTS.md\<close> can be
  opened for writing, and its content (\<open>None\<close> when it does not exist). The input files are
  taken to be distinct from the output file.
\<close>

record filesystem =
  listdir :: "string list option"
  read_text :: "string \<rightharpoonup> string"
  read_failure :: "string \<Rightarrow> read_failure"
  out_writable :: bool
  out_content :: "string option"

text \<open>
  The exceptions of a run, none of which the script catches. \<^verbatim>\<open>OSError\<close> is the class of
  the file system's errors; \<^verbatim>\<open>UnicodeDecodeError\<close> and \<^verbatim>\<open>UnicodeEncodeError\<close> are
  \<^verbatim>\<open>ValueError\<close>s.
\<close>

datatype error =
    OutputOpenError
  | ListDirError
  | OpenError string
  | DecodeError string
  | EncodeError
  | WriteError


fun read_error :: "read_failure \<Rightarrow> string \<Rightarrow> error" where
  "read_error CannotOpen path = OpenError path"
| "read_error CannotDecode path = DecodeError path"

fun write_error :: "write_failure \<Rightarrow> error" where
  "write_error CannotEncode = EncodeError"
| "write_error CannotWrite = WriteError"

text \<open>\<^verbatim>\<open>filename.endswith(".md") and filename != "index.md"\<close>.\<close>

definition included :: "string \<Rightarrow> bool" where
  "included filename = (endswith filename ''.md'' \<and> filename \<noteq> ''index.md'')"

text \<open>The block under \<^verbatim>\<open># Skip frontmatter\<close>.\<close>

definition skip_frontmatter :: "string \<Rightarrow> string" where
  "skip_frontmatter content =
     (if startswith content ''---''
      then (let parts = py_split ''---'' content
            in if 2 < length parts then py_join ''---'' (drop 2 parts) else content)
      else content)"

text \<open>The title and the heading written for it, \<^verbatim>\<open>f"## {title}\n\n"\<close>.\<close>

definition title_of :: "string \<Rightarrow> string" where
  "title_of filename = py_title (py_replace ''-'' '' '' (fst (splitext filename)))"

definition section_header :: "string \<Rightarrow> string" where
  "section_header filename = ''## '' @ title_of filename @ ''\<newline>\<newline>''"

text \<open>Everything the three \<^verbatim>\<open>outfile.write\<close> calls append for one file.\<close>

definition file_section :: "string \<Rightarrow> string \<Rightarrow> string" where
  "file_section filename content =
     section_header filename
       @ adjust_header_levels (skip_frontmatter content)
       @ ''\<newline>\<newline>''"

text \<open>The texts of the three \<^verbatim>\<open>outfile.write\<close> calls for one file, in order.\<close>

definition section_writes :: "string \<Rightarrow> string \<Rightarrow> string list" where
  "section_writes filename content =
     [section_header filename,
      adjust_header_levels (skip_frontmatter content),
      ''\<newline>\<newline>'']"

text \<open>
  A sequence of \<^verbatim>\<open>outfile.write\<close> calls. The environment \<open>wr\<close> says for a text whether
  writing it fails, and how. A failing write raises, and what was written before stays
  written.
\<close>

fun write_all ::
  "(string \<Rightarrow> write_failure option) \<Rightarrow> string list \<Rightarrow> string \<Rightarrow> (error + unit) \<times> string" where
  "write_all wr [] out = (Inr (), out)"
| "write_all wr (text # texts) out =
     (case wr text of
        Some failure \<Rightarrow> (Inl (write_error failure), out)
      | None \<Rightarrow> write_all wr texts (out @ text))"

text \<open>
  The \<^verbatim>\<open>for\<close> loop over the sorted names. The text written so far is threaded through;
  a failing read or write stops the loop, and what was written before stays written.
\<close>

fun write_sections ::
  "(string \<Rightarrow> write_failure option) \<Rightarrow> filesystem \<Rightarrow> string list \<Rightarrow> string
     \<Rightarrow> (error + unit) \<times> string" where
  "write_sections wr fs [] out = (Inr (), out)"
| "write_sections wr fs (filename # rest) out =
     (if included filename
      then (case read_text fs (path_join docs_path filename) of
              None \<Rightarrow>
                (Inl (read_error (read_failure fs (path_join docs_path filename))
                        (path_join docs_path filename)), out)
            | Some content \<Rightarrow>
                (case write_all wr (section_writes filename content) out of
                   (Inl e, out') \<Rightarrow> (Inl e, out')
                 | (Inr u, out') \<Rightarrow> write_sections wr fs rest out'))
      else write_sections wr fs rest out)"

text \<open>
  \<^verbatim>\<open>main\<close> in an environment \<open>wr\<close> for the writes: the output file is opened (and
  truncated) first, then the directory is listed. The result is the exception raised, if
  any, and the file system afterwards.
\<close>

definition main_io ::
  "(string \<Rightarrow> write_failure option) \<Rightarrow> filesystem \<Rightarrow> (error + unit) \<times> filesystem" where
  "main_io wr fs =
     (if \<not> out_writable fs then (Inl OutputOpenError, fs)
      else (case listdir fs of
              None \<Rightarrow> (Inl ListDirError, fs\<lparr>out_content := Some []\<rparr>)
            | Some names \<Rightarrow>
                (case write_sections wr fs (sort names) [] of
                   (r, out) \<Rightarrow> (r, fs\<lparr>out_content := Some out\<rparr>))))"

text \<open>\<^verbatim>\<open>main\<close> where every write to the opened output file succeeds.\<close>

definition main :: "filesystem \<Rightarrow> (error + unit) \<times> filesystem" where
  "main fs = main_io (\<lambda>text. None) fs"

subsection \<open>The specification's wording\<close>

text \<open>
  Notions that the specification words differently from the code, each defined here
  from the specification's words so that it can be compared with the code.

  ``A leading line consisting of three hyphens'': the first line of the text is
  \<^verbatim>\<open>---\<close>.
\<close>

definition leading_delimiter_line :: "string \<Rightarrow> bool" where
  "leading_delimiter_line content =
     (case py_split ''\<newline>'' content of
        [] \<Rightarrow> False
      | line # rest \<Rightarrow> line = ''---'')"

text \<open>
  ``A frontmatter block delimited by lines of three hyphens'': what stands between the
  two delimiters begins with the newline that ends the opening \<^verbatim>\<open>---\<close> line, ends with the
  newline before the closing \<^verbatim>\<open>---\<close> line, and none of its lines is \<^verbatim>\<open>---\<close>.
\<close>

definition frontmatter_block :: "string \<Rightarrow> bool" where
  "frontmatter_block fm =
     (startswith fm ''\<newline>'' \<and> endswith fm ''\<newline>''
      \<and> ''---'' \<notin> set (py_split ''\<newline>'' fm))"

text \<open>
  ``The filename without its extension, every hyphen replaced with a space, each word's
  first letter capitalized'': the extension is the final \<^verbatim>\<open>.md\<close>, words are separated by
  spaces, and the letters after the first are kept.
\<close>

fun capitalize_words :: "bool \<Rightarrow> string \<Rightarrow> string" where
  "capitalize_words at_start [] = []"
| "capitalize_words at_start (c # cs) =
     (if at_start then to_upper c else c) # capitalize_words (c = CHR '' '') cs"

definition spec_title :: "string \<Rightarrow> string" where
  "spec_title filename =
     capitalize_words True
       (map (\<lambda>c. if c = CHR ''-'' then CHR '' '' else c)
          (take (length filename - length ''.md'') filename))"

subsection \<open>Example file systems\<close>

text \<open>The directory of the specification's end-to-end example, listed in some order, with a
  stale output file.\<close>

definition example_fs :: filesystem where
  "example_fs =
     \<lparr>listdir = Some [''index.md'', ''b-doc.md'', ''a-doc.md''],
      read_text =
        [''docs/code-howtos/a-doc.md'' \<mapsto> ''# A\<newline>hello'',
         ''docs/code-howtos/b-doc.md'' \<mapsto> ''---\<newline>title: x\<newline>---\<newline># B\<newline>world'',
         ''docs/code-howtos/index.md'' \<mapsto> ''# Index''],
      read_failure = (\<lambda>path. CannotOpen),
      out_writable = True,
      out_content = Some ''stale''\<rparr>"

text \<open>A directory whose only markdown file is named \<^verbatim>\<open>.md\<close>.\<close>

definition dotfile_fs :: filesystem where
  "dotfile_fs =
     \<lparr>listdir = Some [''.md''],
      read_text = [''docs/code-howtos/.md'' \<mapsto> ''# T''],
      read_failure = (\<lambda>path. CannotOpen),
      out_writable = True,
      out_content = None\<rparr>"

text \<open>A directory without an included file.\<close>

definition empty_fs :: filesystem where
  "empty_fs =
     \<lparr>listdir = Some [''notes.txt'', ''index.md''],
      read_text = Map.empty,
      read_failure = (\<lambda>path. CannotOpen),
      out_writable = True,
      out_content = Some ''stale''\<rparr>"



subsection \<open>Splitting and joining\<close>

text \<open>A split has at least one part, and joining the parts gives the text back.\<close>

lemma py_split_not_Nil: "py_split sep s \<noteq> []"
  by (induction sep s rule: py_split.induct) (auto split: list.splits)

lemma py_join_Cons: "ps \<noteq> [] \<Longrightarrow> py_join sep (p # ps) = p @ sep @ py_join sep ps"
  by (cases ps) simp_all

lemma py_join_split: "py_join sep (py_split sep s) = s"
proof (induction sep s rule: py_split.induct)
  case (1 sep)
  show ?case by simp
next
  case (2 sep c cs)
  show ?case
  proof (cases "sep \<noteq> [] \<and> prefix sep (c # cs)")
    case True
    then have eq: "c # cs = sep @ drop (length sep) (c # cs)"
      by (metis append_take_drop_id prefix_def append_eq_conv_conj)
    have ih: "py_join sep (py_split sep (drop (length sep) (c # cs))) = drop (length sep) (c # cs)"
      using True 2(1) by simp
    have "py_split sep (c # cs) = [] # py_split sep (drop (length sep) (c # cs))"
      using True by simp
    then have "py_join sep (py_split sep (c # cs)) = sep @ drop (length sep) (c # cs)"
      by (simp only: py_join_Cons[OF py_split_not_Nil] ih append_Nil)
    with eq show ?thesis by simp
  next
    case False
    obtain p ps where ps: "py_split sep cs = p # ps"
      using py_split_not_Nil by (cases "py_split sep cs") auto
    with False 2(2) show ?thesis
      by (cases ps) auto
  qed
qed

text \<open>Splitting on a single character: no part holds it, and splitting a join of such
  parts gives the parts back.\<close>

lemma py_split_char_parts: "p \<in> set (py_split [d] s) \<Longrightarrow> d \<notin> set p"
proof (induction "[d]" s arbitrary: p rule: py_split.induct)
  case 1
  then show ?case by simp
next
  case (2 c cs)
  then show ?case
    by (auto split: if_splits list.splits)
qed

lemma py_split_char_append:
  "d \<notin> set p \<Longrightarrow> py_split [d] (p @ d # s) = p # py_split [d] s"
  by (induction p) auto

lemma py_split_char_single: "d \<notin> set p \<Longrightarrow> py_split [d] p = [p]"
  by (induction p) auto

lemma py_split_join_char:
  "ps \<noteq> [] \<Longrightarrow> \<forall>p \<in> set ps. d \<notin> set p \<Longrightarrow> py_split [d] (py_join [d] ps) = ps"
proof (induction ps)
  case Nil
  then show ?case by simp
next
  case (Cons p ps)
  show ?case
  proof (cases ps)
    case Nil
    with Cons.prems show ?thesis by (simp add: py_split_char_single)
  next
    case (Cons q qs)
    with Cons.IH Cons.prems have "py_split [d] (py_join [d] ps) = ps" by simp
    moreover have "py_join [d] (p # ps) = p @ d # py_join [d] ps"
      using Cons by simp
    moreover have "d \<notin> set p"
      using Cons.prems by simp
    ultimately show ?thesis
      by (simp add: py_split_char_append del: py_split.simps py_join.simps)
  qed
qed

subsection \<open>Header demotion\<close>

lemma adjust_lines_map:
  "adjust_lines ls = map (\<lambda>line. if startswith line ''#'' then CHR ''#'' # line else line) ls"
  by (induction ls) auto

lemma py_split_adjust_header_levels:
  "py_split ''\<newline>'' (adjust_header_levels content) =
     map (\<lambda>line. if startswith line ''#'' then CHR ''#'' # line else line)
       (py_split ''\<newline>'' content)"
proof -
  let ?nl = "CHR ''\<newline>''"
  let ?ls = "py_split [?nl] content"
  have "\<forall>p \<in> set (adjust_lines ?ls). ?nl \<notin> set p"
    by (auto simp: adjust_lines_map dest: py_split_char_parts)
  moreover have "adjust_lines ?ls \<noteq> []"
    by (simp add: adjust_lines_map py_split_not_Nil)
  ultimately have "py_split [?nl] (py_join [?nl] (adjust_lines ?ls)) = adjust_lines ?ls"
    by (rule py_split_join_char[rotated])
  then show ?thesis
    by (simp only: adjust_header_levels_def adjust_lines_map)
qed

text \<open>
  C6. Header demotion works line by line. A text without a newline is one line: it gets
  one more \<^verbatim>\<open>#\<close> in front when it begins with \<^verbatim>\<open>#\<close>, and is unchanged otherwise. For a
  text with a newline, the first line is treated so, the newline is kept, and the rest of
  the text is demoted in the same way. So the lines of the demoted text are the lines of
  the text, in the same order, each demoted on its own: \<^verbatim>\<open># Title\<close> becomes \<^verbatim>\<open>## Title\<close>,
  \<^verbatim>\<open>### Sub\<close> becomes \<^verbatim>\<open>#### Sub\<close>, and a line with a \<^verbatim>\<open>#\<close> elsewhere is unchanged, also in
  a text of several lines.
\<close>

theorem adjust_header_levels_lines:
  "(CHR ''\<newline>'' \<notin> set line \<longrightarrow>
      adjust_header_levels line = (if startswith line ''#'' then CHR ''#'' # line else line))
   \<and> (CHR ''\<newline>'' \<notin> set line \<longrightarrow>
        adjust_header_levels (line @ CHR ''\<newline>'' # rest) =
          (if startswith line ''#'' then CHR ''#'' # line else line)
            @ CHR ''\<newline>'' # adjust_header_levels rest)
   \<and> py_split ''\<newline>'' (adjust_header_levels content) =
       map (\<lambda>line. if startswith line ''#'' then CHR ''#'' # line else line)
         (py_split ''\<newline>'' content)
   \<and> adjust_header_levels ''# Title'' = ''## Title''
   \<and> adjust_header_levels ''### Sub'' = ''#### Sub''
   \<and> adjust_header_levels ''text # here'' = ''text # here''
   \<and> adjust_header_levels ''intro\<newline># Title\<newline>\<newline>text # here\<newline>### Sub\<newline>'' =
       ''intro\<newline>## Title\<newline>\<newline>text # here\<newline>#### Sub\<newline>''"
proof -
  let ?nl = "CHR ''\<newline>''"
  let ?d = "\<lambda>line. if startswith line ''#'' then CHR ''#'' # line else line"
  have one: "adjust_header_levels line = ?d line" if "?nl \<notin> set line"
    using that by (simp add: adjust_header_levels_def py_split_char_single)
  have more: "adjust_header_levels (line @ ?nl # rest) = ?d line @ ?nl # adjust_header_levels rest"
    if "?nl \<notin> set line"
  proof -
    have "py_split [?nl] (line @ ?nl # rest) = line # py_split [?nl] rest"
      using that by (rule py_split_char_append)
    moreover have "adjust_lines (py_split [?nl] rest) \<noteq> []"
      by (simp add: adjust_lines_map py_split_not_Nil)
    ultimately show ?thesis
      by (simp add: adjust_header_levels_def py_join_Cons del: py_split.simps)
  qed
  have "adjust_header_levels ''# Title'' = ''## Title''"
    by (simp add: adjust_header_levels_def startswith_def)
  moreover have "adjust_header_levels ''### Sub'' = ''#### Sub''"
    by (simp add: adjust_header_levels_def startswith_def)
  moreover have "adjust_header_levels ''text # here'' = ''text # here''"
    by (simp add: adjust_header_levels_def startswith_def)
  moreover have "adjust_header_levels ''intro\<newline># Title\<newline>\<newline>text # here\<newline>### Sub\<newline>'' =
       ''intro\<newline>## Title\<newline>\<newline>text # here\<newline>#### Sub\<newline>''"
    by code_simp
  ultimately show ?thesis
    using py_split_adjust_header_levels[of content] one more by blast
qed

theorem adjust_header_levels_lines_witness:
  "CHR ''\<newline>'' \<notin> set ''# b''
   \<and> adjust_header_levels ''# b'' = ''## b''
   \<and> adjust_header_levels (''# b'' @ CHR ''\<newline>'' # ''c'') =
       ''## b'' @ CHR ''\<newline>'' # adjust_header_levels ''c''
   \<and> CHR ''\<newline>'' \<notin> set ''c''
   \<and> adjust_header_levels ''c'' = ''c''"
proof -
  have h: "CHR ''\<newline>'' \<notin> set ''# b''" "CHR ''\<newline>'' \<notin> set ''c''"
    by simp_all
  have p: "startswith ''# b'' ''#''" "\<not> startswith ''c'' ''#''"
    by (simp_all add: startswith_def)
  from adjust_header_levels_lines[where line = "''# b''" and rest = "''c''"] h(1) p(1)
  have a: "adjust_header_levels ''# b'' = ''## b''"
    and b: "adjust_header_levels (''# b'' @ CHR ''\<newline>'' # ''c'') =
       ''## b'' @ CHR ''\<newline>'' # adjust_header_levels ''c''"
    by simp_all
  from adjust_header_levels_lines[where line = "''c''"] h(2) p(2)
  have c: "adjust_header_levels ''c'' = ''c''"
    by simp
  from h a b c show ?thesis by blast
qed

subsection \<open>Frontmatter\<close>

lemma py_split_two:
  "py_split sep s = p # q # qs \<Longrightarrow> s = p @ sep @ py_join sep (q # qs)"
  using py_join_split[of sep s] by simp

lemma prefix_append_short:
  "length xs \<le> length ys \<Longrightarrow> prefix xs (ys @ zs) \<longleftrightarrow> prefix xs ys"
  by (auto simp: prefix_append)

lemma py_split_Cons_sep:
  "sep \<noteq> [] \<Longrightarrow> prefix sep (c # cs) \<Longrightarrow>
     py_split sep (c # cs) = [] # py_split sep (drop (length sep) (c # cs))"
  by simp

lemma py_split_Cons_other:
  "\<not> prefix sep (c # cs) \<Longrightarrow>
     py_split sep (c # cs) = (case py_split sep cs of [] \<Rightarrow> [[c]] | p # ps \<Rightarrow> (c # p) # ps)"
  by simp

lemma py_split_first_part:
  "py_split ''---'' s = p # q # qs \<Longrightarrow> \<not> sublist ''---'' (p @ ''--'')"
proof (induction "''---''" s arbitrary: p q qs rule: py_split.induct)
  case 1
  then show ?case by simp
next
  case (2 c cs)
  show ?case
  proof (cases "prefix ''---'' (c # cs)")
    case True
    have u: "py_split ''---'' (c # cs) = [] # py_split ''---'' (drop (length ''---'') (c # cs))"
      by (rule py_split_Cons_sep[OF _ True]) simp
    from 2(3)[unfolded u] have "p = []" by simp
    then show ?thesis by (simp add: sublist_Cons_right)
  next
    case False
    from 2(3)[unfolded py_split_Cons_other[OF False]]
    obtain p' where p: "p = c # p'" and sp: "py_split ''---'' cs = p' # q # qs"
      by (cases "py_split ''---'' cs") auto
    from 2(2)[OF _ sp] False have ih: "\<not> sublist ''---'' (p' @ ''--'')" by simp
    from py_split_two[OF sp]
    have cs: "c # cs = (c # p' @ ''--'') @ (CHR ''-'' # py_join ''---'' (q # qs))"
      by simp
    have "\<not> prefix ''---'' (c # p' @ ''--'')"
    proof
      assume "prefix ''---'' (c # p' @ ''--'')"
      then have "prefix ''---'' ((c # p' @ ''--'') @ (CHR ''-'' # py_join ''---'' (q # qs)))"
        by (rule prefix_prefix)
      then have "prefix ''---'' (c # cs)"
        by (simp only: cs)
      with False show False by blast
    qed
    with ih p show ?thesis by (simp add: sublist_Cons_right)
  qed
qed

lemma py_split_frontmatter:
  "\<not> sublist ''---'' (fm @ ''--'') \<Longrightarrow>
     py_split ''---'' (fm @ ''---'' @ body) = fm # py_split ''---'' body"
proof (induction fm)
  case Nil
  then show ?case by simp
next
  case (Cons c fm)
  from Cons.prems have np: "\<not> prefix ''---'' ((c # fm @ ''--''))"
    and ns: "\<not> sublist ''---'' (fm @ ''--'')"
    by (simp_all add: sublist_Cons_right)
  have "prefix ''---'' ((c # fm @ ''--'') @ (CHR ''-'' # body)) \<longleftrightarrow> prefix ''---'' (c # fm @ ''--'')"
    by (rule prefix_append_short) simp
  with np have "\<not> prefix ''---'' (c # fm @ ''---'' @ body)" by simp
  with Cons.IH[OF ns] show ?case by simp
qed

lemma frontmatter_block_no_overlap:
  assumes "endswith fm ''\<newline>''" and "\<not> sublist ''---'' fm"
  shows "\<not> sublist ''---'' (fm @ ''--'')"
proof
  assume "sublist ''---'' (fm @ ''--'')"
  then consider "sublist ''---'' fm" | "sublist ''---'' ''--''"
    | xs1 xs2 where "''---'' = xs1 @ xs2" "suffix xs1 fm" "prefix xs2 ''--''"
    unfolding sublist_append by blast
  then show False
  proof cases
    case 1
    with assms(2) show False by blast
  next
    case 2
    from sublist_length_le[OF this] show False by simp
  next
    case 3
    from prefix_length_le[OF 3(3)] have "length xs2 \<le> 2"
      by simp
    moreover have "length ''---'' = length (xs1 @ xs2)"
      using 3(1) by (rule arg_cong)
    ultimately have ne: "xs1 \<noteq> []" by auto
    have "set ''---'' = set (xs1 @ xs2)"
      using 3(1) by (rule arg_cong)
    then have "set xs1 \<subseteq> {CHR ''-''}" by auto
    moreover have "last xs1 \<in> set xs1"
      using ne by (rule last_in_set)
    ultimately have l: "last xs1 = CHR ''-''" by blast
    from 3(2) ne have "last fm = last xs1"
      by (auto simp: suffix_def)
    moreover from assms(1) have "last fm = CHR ''\<newline>''"
      by (auto simp: endswith_def suffix_def)
    ultimately show False using l by simp
  qed
qed

text \<open>
  C3, as the specification states it, fails in its last part: the code looks for the
  characters \<^verbatim>\<open>---\<close> anywhere, not for delimiter lines. A frontmatter block between two
  \<^verbatim>\<open>---\<close> lines that holds \<^verbatim>\<open>---\<close> inside a line is cut at that place, and the end of the
  block and the closing delimiter stay in the output.
\<close>

theorem skip_frontmatter_spec_counterexample:
  "frontmatter_block ''\<newline>title: a --- b\<newline>''
   \<and> skip_frontmatter (''---'' @ ''\<newline>title: a --- b\<newline>'' @ ''---'' @ ''\<newline>body'') =
       '' b\<newline>---\<newline>body''
   \<and> skip_frontmatter (''---'' @ ''\<newline>title: a --- b\<newline>'' @ ''---'' @ ''\<newline>body'') \<noteq>
       ''\<newline>body''"
  by code_simp

text \<open>
  C3, amended. When the content begins with \<^verbatim>\<open>---\<close> and splits on \<^verbatim>\<open>---\<close> into more than two parts,
  what is kept is the join of the parts from the third on, and that is the content behind
  the second delimiter found by the split: the content is \<^verbatim>\<open>---\<close>, a block in which no
  delimiter starts, \<^verbatim>\<open>---\<close> again, and what is kept. When the split has two parts or fewer
  the content is unchanged. For a content made of \<^verbatim>\<open>---\<close>, a block, \<^verbatim>\<open>---\<close> and a body, where
  no \<^verbatim>\<open>---\<close> starts inside the block (in particular for a frontmatter block between two
  delimiter lines that holds no \<^verbatim>\<open>---\<close> at all), the block is gone from the section and the
  body, which is everything behind the closing delimiter, is demoted.
\<close>

theorem skip_frontmatter_spec:
  "(startswith content ''---'' \<and> 2 < length (py_split ''---'' content) \<longrightarrow>
      skip_frontmatter content = py_join ''---'' (drop 2 (py_split ''---'' content))
      \<and> (\<exists>fm. content = ''---'' @ fm @ ''---'' @ skip_frontmatter content
              \<and> \<not> sublist ''---'' (fm @ ''--'')))
   \<and> (length (py_split ''---'' content) \<le> 2 \<longrightarrow> skip_frontmatter content = content)
   \<and> (\<not> sublist ''---'' (fm' @ ''--'') \<longrightarrow>
        skip_frontmatter (''---'' @ fm' @ ''---'' @ body) = body
        \<and> file_section filename (''---'' @ fm' @ ''---'' @ body) =
            section_header filename @ adjust_header_levels body @ ''\<newline>\<newline>'')
   \<and> (frontmatter_block fm' \<and> \<not> sublist ''---'' fm' \<longrightarrow>
        skip_frontmatter (''---'' @ fm' @ ''---'' @ body) = body)"
proof (intro conjI impI)
  assume a: "startswith content ''---'' \<and> 2 < length (py_split ''---'' content)"
  then show eq: "skip_frontmatter content = py_join ''---'' (drop 2 (py_split ''---'' content))"
    by (simp add: skip_frontmatter_def)
  from a obtain r where r: "content = ''---'' @ r"
    by (auto simp: startswith_def prefix_def)
  then have sp: "py_split ''---'' content = [] # py_split ''---'' r" by simp
  with a obtain p q qs where pq: "py_split ''---'' r = p # q # qs"
    by (cases "py_split ''---'' r" rule: list.exhaust; cases "tl (py_split ''---'' r)") auto
  have "skip_frontmatter content = py_join ''---'' (q # qs)"
    using eq sp pq by simp
  moreover have "r = p @ ''---'' @ py_join ''---'' (q # qs)"
    using py_split_two[OF pq] .
  moreover have "\<not> sublist ''---'' (p @ ''--'')"
    using py_split_first_part[OF pq] .
  ultimately have "content = ''---'' @ p @ ''---'' @ skip_frontmatter content
      \<and> \<not> sublist ''---'' (p @ ''--'')"
    using r by simp
  then show "\<exists>fm. content = ''---'' @ fm @ ''---'' @ skip_frontmatter content
              \<and> \<not> sublist ''---'' (fm @ ''--'')"
    by blast
next
  assume "length (py_split ''---'' content) \<le> 2"
  then show "skip_frontmatter content = content"
    by (simp add: skip_frontmatter_def Let_def)
next
  assume a: "\<not> sublist ''---'' (fm' @ ''--'')"
  have "py_split ''---'' (''---'' @ fm' @ ''---'' @ body) = [] # fm' # py_split ''---'' body"
    using py_split_frontmatter[OF a, of body] by simp
  moreover have "py_split ''---'' body \<noteq> []" by (rule py_split_not_Nil)
  ultimately show s: "skip_frontmatter (''---'' @ fm' @ ''---'' @ body) = body"
    by (simp add: skip_frontmatter_def startswith_def py_join_split del: py_split.simps)
  show "file_section filename (''---'' @ fm' @ ''---'' @ body) =
            section_header filename @ adjust_header_levels body @ ''\<newline>\<newline>''"
    by (simp only: file_section_def s)
next
  assume b: "frontmatter_block fm' \<and> \<not> sublist ''---'' fm'"
  then have a: "\<not> sublist ''---'' (fm' @ ''--'')"
    by (intro frontmatter_block_no_overlap) (simp_all add: frontmatter_block_def)
  have "py_split ''---'' (''---'' @ fm' @ ''---'' @ body) = [] # fm' # py_split ''---'' body"
    using py_split_frontmatter[OF a, of body] by simp
  moreover have "py_split ''---'' body \<noteq> []" by (rule py_split_not_Nil)
  ultimately show "skip_frontmatter (''---'' @ fm' @ ''---'' @ body) = body"
    by (simp add: skip_frontmatter_def startswith_def py_join_split del: py_split.simps)
qed

theorem skip_frontmatter_spec_witness:
  "startswith ''---\<newline>title: x\<newline>---\<newline># B\<newline>world'' ''---''
   \<and> 2 < length (py_split ''---'' ''---\<newline>title: x\<newline>---\<newline># B\<newline>world'')
   \<and> skip_frontmatter ''---\<newline>title: x\<newline>---\<newline># B\<newline>world'' =
       py_join ''---'' (drop 2 (py_split ''---'' ''---\<newline>title: x\<newline>---\<newline># B\<newline>world''))
   \<and> length (py_split ''---'' ''---\<newline>title'') \<le> 2
   \<and> skip_frontmatter ''---\<newline>title'' = ''---\<newline>title''
   \<and> \<not> sublist ''---'' (''\<newline>title: x\<newline>'' @ ''--'')
   \<and> skip_frontmatter (''---'' @ ''\<newline>title: x\<newline>'' @ ''---'' @ ''\<newline># B\<newline>world'') =
       ''\<newline># B\<newline>world''
   \<and> frontmatter_block ''\<newline>title: x\<newline>''
   \<and> \<not> sublist ''---'' ''\<newline>title: x\<newline>''"
proof -
  have h4: "frontmatter_block ''\<newline>title: x\<newline>'' \<and> \<not> sublist ''---'' ''\<newline>title: x\<newline>''"
    by code_simp
  have h1: "startswith ''---\<newline>title: x\<newline>---\<newline># B\<newline>world'' ''---''
            \<and> 2 < length (py_split ''---'' ''---\<newline>title: x\<newline>---\<newline># B\<newline>world'')"
    by code_simp
  have h2: "length (py_split ''---'' ''---\<newline>title'') \<le> 2"
    by code_simp
  have h3: "\<not> sublist ''---'' (''\<newline>title: x\<newline>'' @ ''--'')"
    by code_simp
  show ?thesis
    using h1 h2 h3 h4
      skip_frontmatter_spec[of "''---\<newline>title: x\<newline>---\<newline># B\<newline>world''" "[]" "[]" "[]"]
      skip_frontmatter_spec[of "''---\<newline>title''" "''\<newline>title: x\<newline>''" "''\<newline># B\<newline>world''" "[]"]
    by blast
qed

subsection \<open>The run\<close>

lemma concat_section_writes: "concat (section_writes filename content) = file_section filename content"
  by (simp add: section_writes_def file_section_def)

lemma write_all_ok:
  "\<forall>t \<in> set texts. wr t = None \<Longrightarrow> write_all wr texts out = (Inr (), out @ concat texts)"
  by (induction texts arbitrary: out) auto



lemma write_sections_ok:
  "\<forall>f \<in> set names. included f \<longrightarrow>
     (\<exists>content. read_text fs (path_join docs_path f) = Some content
        \<and> (\<forall>t \<in> set (section_writes f content). wr t = None)) \<Longrightarrow>
   write_sections wr fs names out =
     (Inr (), out @ concat (map (\<lambda>f. file_section f (the (read_text fs (path_join docs_path f))))
                        (filter included names)))"
proof (induction names arbitrary: out)
  case Nil
  show ?case by simp
next
  case (Cons f names)
  show ?case
  proof (cases "included f")
    case False
    with Cons show ?thesis by simp
  next
    case True
    with Cons.prems obtain content
      where r: "read_text fs (path_join docs_path f) = Some content"
        and w: "\<forall>t \<in> set (section_writes f content). wr t = None"
      by auto
    have "write_all wr (section_writes f content) out = (Inr (), out @ file_section f content)"
      using write_all_ok[OF w, of out] by (simp only: concat_section_writes)
    with True r Cons show ?thesis by simp
  qed
qed




lemma write_sections_out_content:
  "write_sections wr (fs\<lparr>out_content := c\<rparr>) names out = write_sections wr fs names out"
  by (induction names arbitrary: out) (simp_all split: option.splits prod.splits sum.splits)

lemma write_sections_listdir:
  "write_sections wr (fs\<lparr>listdir := l\<rparr>) names out = write_sections wr fs names out"
  by (induction names arbitrary: out) (simp_all split: option.splits prod.splits sum.splits)


lemma main_io_ok:
  "out_writable fs \<Longrightarrow> listdir fs = Some names \<Longrightarrow>
   \<forall>f \<in> set names. included f \<longrightarrow>
     (\<exists>content. read_text fs (path_join docs_path f) = Some content
        \<and> (\<forall>t \<in> set (section_writes f content). wr t = None)) \<Longrightarrow>
   main_io wr fs = (Inr (), fs\<lparr>out_content :=
      Some (concat (map (\<lambda>f. file_section f (the (read_text fs (path_join docs_path f))))
                      (filter included (sort names))))\<rparr>)"
  by (simp add: main_io_def write_sections_ok)

lemma main_ok:
  "out_writable fs \<Longrightarrow> listdir fs = Some names \<Longrightarrow>
   \<forall>f \<in> set names. included f \<longrightarrow> read_text fs (path_join docs_path f) \<noteq> None \<Longrightarrow>
   main fs = (Inr (), fs\<lparr>out_content :=
      Some (concat (map (\<lambda>f. file_section f (the (read_text fs (path_join docs_path f))))
                      (filter included (sort names))))\<rparr>)"
  unfolding main_def by (rule main_io_ok) auto


text \<open>
  C10. When the output file can be opened and the directory lists no included name (it is
  empty, or holds only \<^verbatim>\<open>index.md\<close> or names that do not end in \<^verbatim>\<open>.md\<close>), the run
  succeeds and leaves the output file empty, whatever it held before.
\<close>

theorem main_no_included:
  "out_writable fs \<Longrightarrow> listdir fs = Some names \<Longrightarrow> \<forall>f \<in> set names. \<not> included f \<Longrightarrow>
   main fs = (Inr (), fs\<lparr>out_content := Some []\<rparr>)"
proof -
  assume w: "out_writable fs" and l: "listdir fs = Some names"
    and n: "\<forall>f \<in> set names. \<not> included f"
  from n have "filter included (sort names) = []"
    by (simp add: filter_empty_conv)
  moreover from n
  have "\<forall>f \<in> set names. included f \<longrightarrow> read_text fs (path_join docs_path f) \<noteq> None"
    by blast
  ultimately show ?thesis
    using main_ok[OF w l] by simp
qed

theorem main_no_included_witness:
  "out_writable empty_fs \<and> listdir empty_fs = Some [''notes.txt'', ''index.md'']
   \<and> \<not> included ''notes.txt'' \<and> \<not> included ''index.md''
   \<and> main empty_fs = (Inr (), empty_fs\<lparr>out_content := Some []\<rparr>)"
proof -
  have w: "out_writable empty_fs" by (simp add: empty_fs_def)
  have l: "listdir empty_fs = Some [''notes.txt'', ''index.md'']" by (simp add: empty_fs_def)
  have n: "\<forall>f \<in> set [''notes.txt'', ''index.md'']. \<not> included f"
    by (simp add: included_def endswith_def suffix_to_prefix)
  from main_no_included[OF w l n] w l n show ?thesis by simp
qed

subsection \<open>The example directory\<close>

lemma example_paths:
  "path_join docs_path ''a-doc.md'' = ''docs/code-howtos/a-doc.md''"
  "path_join docs_path ''b-doc.md'' = ''docs/code-howtos/b-doc.md''"
  "path_join docs_path ''index.md'' = ''docs/code-howtos/index.md''"
  by (simp_all add: path_join_def docs_path_def startswith_def endswith_def suffix_to_prefix)

lemma example_included:
  "included ''a-doc.md''" "included ''b-doc.md''" "\<not> included ''index.md''"
  by (simp_all add: included_def endswith_def suffix_to_prefix)

lemma example_sections:
  "file_section ''a-doc.md'' ''# A\<newline>hello'' = ''## A Doc\<newline>\<newline>## A\<newline>hello\<newline>\<newline>''"
  "file_section ''b-doc.md'' ''---\<newline>title: x\<newline>---\<newline># B\<newline>world'' =
     ''## B Doc\<newline>\<newline>\<newline>## B\<newline>world\<newline>\<newline>''"
  by code_simp+

lemma example_sort:
  assumes "distinct names" "set names = {''a-doc.md'', ''b-doc.md'', ''index.md''}"
  shows "sort names = [''a-doc.md'', ''b-doc.md'', ''index.md'']"
proof (rule sorted_distinct_set_unique)
  show "sorted (sort names)" by simp
  show "distinct (sort names)" using assms(1) by simp
  show "sorted [''a-doc.md'', ''b-doc.md'', ''index.md'']" by code_simp
  show "distinct [''a-doc.md'', ''b-doc.md'', ''index.md'']" by simp
  show "set (sort names) = set [''a-doc.md'', ''b-doc.md'', ''index.md'']"
    using assms(2) by simp
qed

subsection \<open>Order and selection of the sections\<close>

text \<open>
  C4. When the run succeeds, the output file is the concatenation of the sections of the
  names \<open>filter included (sort names)\<close>, in that order: the list is ascending in the
  lexicographic order of strings, it holds each listed name that ends in \<^verbatim>\<open>.md\<close> and is not
  \<^verbatim>\<open>index.md\<close> as often as the listing does, nothing else, and never \<^verbatim>\<open>index.md\<close>.
\<close>

theorem main_section_order:
  "out_writable fs \<and> listdir fs = Some names
     \<and> (\<forall>f \<in> set names. included f \<longrightarrow> read_text fs (path_join docs_path f) \<noteq> None) \<longrightarrow>
   out_content (snd (main fs)) =
     Some (concat (map (\<lambda>f. file_section f (the (read_text fs (path_join docs_path f))))
                     (filter included (sort names))))
   \<and> sorted (filter included (sort names))
   \<and> mset (filter included (sort names)) = filter_mset included (mset names)
   \<and> set (filter included (sort names)) =
       {f \<in> set names. endswith f ''.md'' \<and> f \<noteq> ''index.md''}
   \<and> ''index.md'' \<notin> set (filter included (sort names))"
proof
  assume a: "out_writable fs \<and> listdir fs = Some names
     \<and> (\<forall>f \<in> set names. included f \<longrightarrow> read_text fs (path_join docs_path f) \<noteq> None)"
  then have "main fs = (Inr (), fs\<lparr>out_content :=
      Some (concat (map (\<lambda>f. file_section f (the (read_text fs (path_join docs_path f))))
                      (filter included (sort names))))\<rparr>)"
    by (intro main_ok) auto
  then have "out_content (snd (main fs)) =
     Some (concat (map (\<lambda>f. file_section f (the (read_text fs (path_join docs_path f))))
                     (filter included (sort names))))"
    by simp
  moreover have "sorted (filter included (sort names))"
    by (simp add: sorted_wrt_filter)
  moreover have "mset (filter included (sort names)) = filter_mset included (mset names)"
    by simp
  moreover have "set (filter included (sort names)) =
       {f \<in> set names. endswith f ''.md'' \<and> f \<noteq> ''index.md''}"
    by (auto simp: included_def)
  moreover have "''index.md'' \<notin> set (filter included (sort names))"
    by (simp add: included_def)
  ultimately show "out_content (snd (main fs)) =
     Some (concat (map (\<lambda>f. file_section f (the (read_text fs (path_join docs_path f))))
                     (filter included (sort names))))
   \<and> sorted (filter included (sort names))
   \<and> mset (filter included (sort names)) = filter_mset included (mset names)
   \<and> set (filter included (sort names)) =
       {f \<in> set names. endswith f ''.md'' \<and> f \<noteq> ''index.md''}
   \<and> ''index.md'' \<notin> set (filter included (sort names))"
    by blast
qed

theorem main_section_order_witness:
  "out_writable example_fs
   \<and> listdir example_fs = Some [''index.md'', ''b-doc.md'', ''a-doc.md'']
   \<and> \<not> included ''index.md''
   \<and> read_text example_fs (path_join docs_path ''b-doc.md'') =
       Some ''---\<newline>title: x\<newline>---\<newline># B\<newline>world''
   \<and> read_text example_fs (path_join docs_path ''a-doc.md'') = Some ''# A\<newline>hello''
   \<and> filter included (sort [''index.md'', ''b-doc.md'', ''a-doc.md'']) = [''a-doc.md'', ''b-doc.md'']
   \<and> out_content (snd (main example_fs)) =
       Some (file_section ''a-doc.md'' ''# A\<newline>hello''
             @ file_section ''b-doc.md'' ''---\<newline>title: x\<newline>---\<newline># B\<newline>world'')"
proof -
  have h1: "out_writable example_fs"
    and h2: "listdir example_fs = Some [''index.md'', ''b-doc.md'', ''a-doc.md'']"
    by (simp_all add: example_fs_def)
  have h3: "\<forall>f \<in> set [''index.md'', ''b-doc.md'', ''a-doc.md''].
         included f \<longrightarrow> read_text example_fs (path_join docs_path f) \<noteq> None"
    by (simp add: example_included example_paths example_fs_def)
  have h4: "filter included (sort [''index.md'', ''b-doc.md'', ''a-doc.md'']) = [''a-doc.md'', ''b-doc.md'']"
    by code_simp
  from main_section_order[of example_fs "[''index.md'', ''b-doc.md'', ''a-doc.md'']"] h1 h2 h3
  have "out_content (snd (main example_fs)) =
     Some (concat (map (\<lambda>f. file_section f (the (read_text example_fs (path_join docs_path f))))
                     (filter included (sort [''index.md'', ''b-doc.md'', ''a-doc.md'']))))"
    by blast
  then have "out_content (snd (main example_fs)) =
       Some (file_section ''a-doc.md'' ''# A\<newline>hello''
             @ file_section ''b-doc.md'' ''---\<newline>title: x\<newline>---\<newline># B\<newline>world'')"
    unfolding h4 by (simp add: example_paths example_fs_def)
  moreover have "read_text example_fs (path_join docs_path ''b-doc.md'') =
       Some ''---\<newline>title: x\<newline>---\<newline># B\<newline>world''"
    and "read_text example_fs (path_join docs_path ''a-doc.md'') = Some ''# A\<newline>hello''"
    by (simp_all add: example_paths example_fs_def)
  ultimately show ?thesis
    using h1 h2 h4 example_included(3) by blast
qed

subsection \<open>Determinism\<close>

text \<open>
  C7. Running again on the file system a run leaves behind gives the same result and the
  same output file. When the output file can be opened, the result and the output file
  depend neither on the order in which the directory is listed nor on what the output
  file held before.
\<close>

theorem main_deterministic:
  "main (snd (main fs)) = main fs
   \<and> (out_writable fs \<and> mset names1 = mset names2 \<longrightarrow>
        fst (main (fs\<lparr>listdir := Some names1, out_content := prior1\<rparr>)) =
        fst (main (fs\<lparr>listdir := Some names2, out_content := prior2\<rparr>))
        \<and> out_content (snd (main (fs\<lparr>listdir := Some names1, out_content := prior1\<rparr>))) =
          out_content (snd (main (fs\<lparr>listdir := Some names2, out_content := prior2\<rparr>))))"
proof (intro conjI impI)
  show "main (snd (main fs)) = main fs"
    by (auto simp: main_def main_io_def write_sections_out_content
          split: option.splits prod.splits)
next
  assume a: "out_writable fs \<and> mset names1 = mset names2"
  then have s: "sort names1 = sort names2"
    by (intro properties_for_sort) simp_all
  from a s show "fst (main (fs\<lparr>listdir := Some names1, out_content := prior1\<rparr>)) =
        fst (main (fs\<lparr>listdir := Some names2, out_content := prior2\<rparr>))"
    by (simp add: main_def main_io_def write_sections_out_content write_sections_listdir
          split: prod.splits)
  from a s show "out_content (snd (main (fs\<lparr>listdir := Some names1, out_content := prior1\<rparr>))) =
          out_content (snd (main (fs\<lparr>listdir := Some names2, out_content := prior2\<rparr>)))"
    by (simp add: main_def main_io_def write_sections_out_content write_sections_listdir
          split: prod.splits)
qed

theorem main_deterministic_witness:
  "out_writable example_fs
   \<and> mset [''b-doc.md'', ''a-doc.md''] = mset [''a-doc.md'', ''b-doc.md'']
   \<and> fst (main (example_fs\<lparr>listdir := Some [''b-doc.md'', ''a-doc.md''], out_content := None\<rparr>)) =
       fst (main (example_fs\<lparr>listdir := Some [''a-doc.md'', ''b-doc.md''], out_content := Some ''old''\<rparr>))
   \<and> out_content (snd (main (example_fs\<lparr>listdir := Some [''b-doc.md'', ''a-doc.md''], out_content := None\<rparr>))) =
       out_content (snd (main (example_fs\<lparr>listdir := Some [''a-doc.md'', ''b-doc.md''], out_content := Some ''old''\<rparr>)))"
proof -
  have h1: "out_writable example_fs" by (simp add: example_fs_def)
  have h2: "mset [''b-doc.md'', ''a-doc.md''] = mset [''a-doc.md'', ''b-doc.md'']"
    by (simp add: add_mset_commute)
  from main_deterministic[of example_fs "[''b-doc.md'', ''a-doc.md'']" "[''a-doc.md'', ''b-doc.md'']" None "Some ''old''"]
    h1 h2 show ?thesis by blast
qed

subsection \<open>Failures\<close>




subsection \<open>The end-to-end example\<close>

text \<open>
  C1, as the specification states it, fails: the newline behind the closing delimiter of
  \<^verbatim>\<open>b-doc.md\<close> stays in the content, so three newlines, not two, follow \<^verbatim>\<open>## B Doc\<close>.
\<close>

theorem main_example_counterexample:
  "fst (main example_fs) = Inr ()
   \<and> out_content (snd (main example_fs)) \<noteq>
       Some ''## A Doc\<newline>\<newline>## A\<newline>hello\<newline>\<newline>## B Doc\<newline>\<newline>## B\<newline>world\<newline>\<newline>''"
  unfolding example_fs_def by code_simp

text \<open>
  C1, amended. For a directory listing exactly \<^verbatim>\<open>a-doc.md\<close>, \<^verbatim>\<open>b-doc.md\<close> and \<^verbatim>\<open>index.md\<close>, in
  any order, with the two contents of the example and any \<^verbatim>\<open>index.md\<close>, the run succeeds and
  the output file is
  \<^verbatim>\<open>## A Doc\n\n## A\nhello\n\n## B Doc\n\n\n## B\nworld\n\n\<close>.
\<close>

theorem main_example:
  assumes "out_writable fs" and "listdir fs = Some names" and "distinct names"
    and "set names = {''a-doc.md'', ''b-doc.md'', ''index.md''}"
    and "read_text fs ''docs/code-howtos/a-doc.md'' = Some ''# A\<newline>hello''"
    and "read_text fs ''docs/code-howtos/b-doc.md'' =
           Some ''---\<newline>title: x\<newline>---\<newline># B\<newline>world''"
  shows "main fs = (Inr (), fs\<lparr>out_content :=
           Some ''## A Doc\<newline>\<newline>## A\<newline>hello\<newline>\<newline>## B Doc\<newline>\<newline>\<newline>## B\<newline>world\<newline>\<newline>''\<rparr>)"
proof -
  have s: "sort names = [''a-doc.md'', ''b-doc.md'', ''index.md'']"
    using assms(3,4) by (rule example_sort)
  have r: "\<forall>f \<in> set names. included f \<longrightarrow> read_text fs (path_join docs_path f) \<noteq> None"
    using assms(4,5,6) by (auto simp: example_paths example_included)
  show ?thesis
    unfolding main_ok[OF assms(1,2) r] s
    by (simp add: example_included example_paths example_sections assms(5,6) del: append.simps)
qed

theorem main_example_witness:
  "out_writable example_fs
   \<and> listdir example_fs = Some [''index.md'', ''b-doc.md'', ''a-doc.md'']
   \<and> distinct [''index.md'', ''b-doc.md'', ''a-doc.md'']
   \<and> set [''index.md'', ''b-doc.md'', ''a-doc.md''] = {''a-doc.md'', ''b-doc.md'', ''index.md''}
   \<and> main example_fs = (Inr (), example_fs\<lparr>out_content :=
           Some ''## A Doc\<newline>\<newline>## A\<newline>hello\<newline>\<newline>## B Doc\<newline>\<newline>\<newline>## B\<newline>world\<newline>\<newline>''\<rparr>)"
proof -
  have h1: "out_writable example_fs"
    and h2: "listdir example_fs = Some [''index.md'', ''b-doc.md'', ''a-doc.md'']"
    and h5: "read_text example_fs ''docs/code-howtos/a-doc.md'' = Some ''# A\<newline>hello''"
    and h6: "read_text example_fs ''docs/code-howtos/b-doc.md'' =
           Some ''---\<newline>title: x\<newline>---\<newline># B\<newline>world''"
    by (simp_all add: example_fs_def)
  have h3: "distinct [''index.md'', ''b-doc.md'', ''a-doc.md'']" by simp
  have h4: "set [''index.md'', ''b-doc.md'', ''a-doc.md''] = {''a-doc.md'', ''b-doc.md'', ''index.md''}"
    by auto
  from main_example[OF h1 h2 h3 h4 h5 h6] h1 h2 h3 h4 show ?thesis by blast
qed

subsection \<open>Content without frontmatter\<close>

lemma leading_delimiter_line_startswith:
  assumes "leading_delimiter_line content"
  shows "startswith content ''---''"
proof -
  from assms obtain rest where sp: "py_split ''\<newline>'' content = ''---'' # rest"
    by (auto simp: leading_delimiter_line_def split: list.splits)
  have "content = py_join ''\<newline>'' (''---'' # rest)"
    using py_join_split[of "''\<newline>''" content] sp by simp
  then show ?thesis
    by (cases rest) (simp_all add: startswith_def)
qed

text \<open>
  C2, as the specification states it, fails: the code tests whether the content begins with
  the three characters \<^verbatim>\<open>---\<close>, not whether its first line is \<^verbatim>\<open>---\<close>. A content whose
  first line is \<^verbatim>\<open>----\<close> and which holds \<^verbatim>\<open>---\<close> once more loses everything up to that
  second occurrence.
\<close>

theorem skip_frontmatter_counterexample:
  "\<not> leading_delimiter_line ''----\<newline>x\<newline>---\<newline>y''
   \<and> adjust_header_levels (skip_frontmatter ''----\<newline>x\<newline>---\<newline>y'') = ''\<newline>y''
   \<and> adjust_header_levels ''----\<newline>x\<newline>---\<newline>y'' = ''----\<newline>x\<newline>---\<newline>y''
   \<and> adjust_header_levels (skip_frontmatter ''----\<newline>x\<newline>---\<newline>y'') \<noteq>
       adjust_header_levels ''----\<newline>x\<newline>---\<newline>y''"
  by code_simp

text \<open>
  C2, amended. For a content that does not begin with the three characters \<^verbatim>\<open>---\<close> (such
  a content has no leading \<^verbatim>\<open>---\<close> line), nothing is skipped: the section is the heading,
  the demoted content and two newlines, and the lines written are the lines of the content,
  demoted.
\<close>

theorem skip_frontmatter_passthrough:
  assumes "\<not> startswith content ''---''"
  shows "\<not> leading_delimiter_line content
   \<and> skip_frontmatter content = content
   \<and> file_section filename content =
       section_header filename @ adjust_header_levels content @ ''\<newline>\<newline>''
   \<and> py_split ''\<newline>'' (adjust_header_levels (skip_frontmatter content)) =
       map (\<lambda>line. if startswith line ''#'' then CHR ''#'' # line else line)
         (py_split ''\<newline>'' content)"
proof -
  have s: "skip_frontmatter content = content"
    using assms by (simp add: skip_frontmatter_def)
  have "\<not> leading_delimiter_line content"
    using assms leading_delimiter_line_startswith by blast
  moreover have "file_section filename content =
       section_header filename @ adjust_header_levels content @ ''\<newline>\<newline>''"
    by (simp only: file_section_def s)
  moreover have "py_split ''\<newline>'' (adjust_header_levels (skip_frontmatter content)) =
       map (\<lambda>line. if startswith line ''#'' then CHR ''#'' # line else line)
         (py_split ''\<newline>'' content)"
    by (simp only: s py_split_adjust_header_levels)
  ultimately show ?thesis using s by blast
qed

theorem skip_frontmatter_passthrough_witness:
  "\<not> startswith ''# A\<newline>hello'' ''---''
   \<and> skip_frontmatter ''# A\<newline>hello'' = ''# A\<newline>hello''
   \<and> file_section ''a-doc.md'' ''# A\<newline>hello'' =
       section_header ''a-doc.md'' @ adjust_header_levels ''# A\<newline>hello'' @ ''\<newline>\<newline>''"
proof -
  have h: "\<not> startswith ''# A\<newline>hello'' ''---''"
    by (simp add: startswith_def)
  from skip_frontmatter_passthrough[OF h, of "''a-doc.md''"] h show ?thesis by blast
qed

subsection \<open>The section title\<close>

lemma py_replace_char:
  "py_replace [a] [b] s = map (\<lambda>c. if c = a then b else c) s"
proof (induction s)
  case Nil
  show ?case by (simp add: py_replace_def)
next
  case (Cons c cs)
  obtain p ps where sp: "py_split [a] cs = p # ps"
    using py_split_not_Nil[of "[a]" cs] by (cases "py_split [a] cs") auto
  show ?case
  proof (cases "c = a")
    case True
    with Cons sp show ?thesis by (simp add: py_replace_def)
  next
    case False
    with Cons sp show ?thesis by (cases ps) (simp_all add: py_replace_def)
  qed
qed

lemma py_rfind_absent: "c \<notin> set s \<Longrightarrow> py_rfind s c = -1"
  by (induction s) (auto simp: Let_def)

lemma py_rfind_last: "c \<notin> set ys \<Longrightarrow> py_rfind (xs @ c # ys) c = int (length xs)"
  by (induction xs) (auto simp: Let_def py_rfind_absent)

lemma splitext_md:
  assumes "CHR ''/'' \<notin> set stem" and "\<exists>c \<in> set stem. c \<noteq> CHR ''.''"
  shows "splitext (stem @ ''.md'') = (stem, ''.md'')"
proof -
  have d: "py_rfind (stem @ ''.md'') (CHR ''.'') = int (length stem)"
    using py_rfind_last[of "CHR ''.''" "''md''" stem] by simp
  have s: "py_rfind (stem @ ''.md'') (CHR ''/'') = -1"
    using assms(1) by (intro py_rfind_absent) simp
  have "list_ex (\<lambda>ch. ch \<noteq> CHR ''.'') stem"
    using assms(2) by (simp add: list_ex_iff)
  then show ?thesis
    unfolding splitext_def d s by (simp add: Let_def)
qed

lemma lower_not_upper: "is_lower c \<Longrightarrow> \<not> is_upper c"
  by (auto simp: is_lower_def is_upper_def ascii_lowercase_def ascii_uppercase_def)

lemma to_lower_id: "\<not> is_upper c \<Longrightarrow> to_lower c = c"
proof -
  assume "\<not> is_upper c"
  then have "c \<notin> fst ` set (zip ascii_uppercase ascii_lowercase)"
    by (simp add: is_upper_def ascii_lowercase_def ascii_uppercase_def)
  then have "map_of (zip ascii_uppercase ascii_lowercase) c = None"
    by (simp only: map_of_eq_None_iff not_False_eq_True)
  then show ?thesis by (simp add: to_lower_def)
qed

lemma to_upper_id: "\<not> is_lower c \<Longrightarrow> to_upper c = c"
proof -
  assume "\<not> is_lower c"
  then have "c \<notin> fst ` set (zip ascii_lowercase ascii_uppercase)"
    by (simp add: is_lower_def ascii_lowercase_def ascii_uppercase_def)
  then have "map_of (zip ascii_lowercase ascii_uppercase) c = None"
    by (simp only: map_of_eq_None_iff not_False_eq_True)
  then show ?thesis by (simp add: to_upper_def)
qed

lemma space_uncased: "\<not> is_cased (CHR '' '')"
  by (simp add: is_cased_def is_lower_def is_upper_def ascii_lowercase_def ascii_uppercase_def)

lemma title_from_capitalize:
  "\<forall>c \<in> set s. is_lower c \<or> c = CHR '' '' \<Longrightarrow>
     title_from b s = capitalize_words (\<not> b) s"
proof (induction s arbitrary: b)
  case Nil
  show ?case by simp
next
  case (Cons c cs)
  from Cons.prems have c: "is_lower c \<or> c = CHR '' ''" by simp
  then have l: "to_lower c = c"
    using lower_not_upper space_uncased to_lower_id by (auto simp: is_cased_def)
  from c have f: "is_cased c \<longleftrightarrow> c \<noteq> CHR '' ''"
    using space_uncased by (auto simp: is_cased_def)
  from Cons.prems have "title_from (is_cased c) cs = capitalize_words (\<not> is_cased c) cs"
    by (intro Cons.IH) simp
  with l f show ?case by simp
qed

lemma title_from_nth:
  "i < length s \<Longrightarrow>
     title_from b s ! i =
       (if (if i = 0 then b else is_cased (s ! (i - 1))) then to_lower (s ! i) else to_upper (s ! i))"
proof (induction s arbitrary: b i)
  case Nil
  then show ?case by simp
next
  case (Cons c cs)
  show ?case
  proof (cases i)
    case 0
    then show ?thesis by simp
  next
    case (Suc j)
    with Cons.prems have "j < length cs" by simp
    from Cons.IH[OF this, of "is_cased c"] Suc show ?thesis
      by (cases j) simp_all
  qed
qed

lemma title_from_length: "length (title_from b s) = length s"
  by (induction s arbitrary: b) simp_all

lemma lower_ascii: "is_lower c \<Longrightarrow> is_ascii c"
  by (auto simp: is_lower_def ascii_lowercase_def is_ascii_def)

lemma upper_ascii: "is_upper c \<Longrightarrow> is_ascii c"
  by (auto simp: is_upper_def ascii_uppercase_def is_ascii_def)

lemma to_upper_ascii: "is_ascii c \<Longrightarrow> is_ascii (to_upper c)"
proof (cases "is_lower c")
  case True
  then have "is_upper (to_upper c)"
    by (auto simp: is_lower_def is_upper_def to_upper_def ascii_lowercase_def ascii_uppercase_def)
  then show ?thesis by (rule upper_ascii)
next
  case False
  assume "is_ascii c"
  with False show ?thesis by (simp add: to_upper_id)
qed

lemma to_lower_ascii: "is_ascii c \<Longrightarrow> is_ascii (to_lower c)"
proof (cases "is_upper c")
  case True
  then have "is_lower (to_lower c)"
    by (auto simp: is_lower_def is_upper_def to_lower_def ascii_lowercase_def ascii_uppercase_def)
  then show ?thesis by (rule lower_ascii)
next
  case False
  assume "is_ascii c"
  with False show ?thesis by (simp add: to_lower_id)
qed

lemma title_from_ascii:
  "list_all is_ascii s \<Longrightarrow> list_all is_ascii (title_from b s)"
  by (induction s arbitrary: b) (simp_all add: to_upper_ascii to_lower_ascii)

text \<open>
  C5, as the specification states it, fails: \<^verbatim>\<open>str.title()\<close> starts a new word after every
  character that is not a letter, and lowercases the letters that do not start a word.
  So \<^verbatim>\<open>log4j-setup.md\<close> gets \<^verbatim>\<open>Log4J Setup\<close> and \<^verbatim>\<open>FAQ.md\<close> gets \<^verbatim>\<open>Faq\<close>, where
  capitalizing the first letter of each word gives \<^verbatim>\<open>Log4j Setup\<close> and \<^verbatim>\<open>FAQ\<close>.
\<close>

theorem section_title_counterexample:
  "included ''log4j-setup.md''
   \<and> section_header ''log4j-setup.md'' = ''## Log4J Setup\<newline>\<newline>''
   \<and> ''## '' @ spec_title ''log4j-setup.md'' @ ''\<newline>\<newline>'' = ''## Log4j Setup\<newline>\<newline>''
   \<and> section_header ''log4j-setup.md'' \<noteq> ''## '' @ spec_title ''log4j-setup.md'' @ ''\<newline>\<newline>''
   \<and> included ''FAQ.md''
   \<and> section_header ''FAQ.md'' = ''## Faq\<newline>\<newline>''
   \<and> ''## '' @ spec_title ''FAQ.md'' @ ''\<newline>\<newline>'' = ''## FAQ\<newline>\<newline>''"
  by code_simp

text \<open>
  C5, amended. The amendment is about ASCII names, on which the model of \<^verbatim>\<open>str.title()\<close>
  is that of Python. For an ASCII name \<open>stem @ ''.md''\<close> whose stem has no \<^verbatim>\<open>/\<close> and a
  character other than a dot, the title is the stem with every hyphen replaced by a space,
  title-cased as \<^verbatim>\<open>str.title()\<close> does for ASCII text: the text keeps its length and stays
  ASCII, a character at the start or behind an uncased character is uppercased, a
  character behind a cased one is lowercased, and uncased characters stay as they are.
  When the stem is made of lowercase ASCII letters and hyphens this is the stem with
  hyphens replaced by spaces and the first letter of each word capitalized. The section of
  an ASCII name begins with \<^verbatim>\<open>## \<close>, the title and a blank line, and \<^verbatim>\<open>my-doc-name.md\<close> gets
  the heading \<^verbatim>\<open>## My Doc Name\<close>.
\<close>

theorem section_title:
  "((\<forall>c \<in> set stem. is_ascii c) \<and> CHR ''/'' \<notin> set stem
      \<and> (\<exists>c \<in> set stem. c \<noteq> CHR ''.'') \<longrightarrow>
      title_of (stem @ ''.md'') =
        py_title (map (\<lambda>c. if c = CHR ''-'' then CHR '' '' else c) stem))
   \<and> (stem \<noteq> [] \<and> (\<forall>c \<in> set stem. is_lower c \<or> c = CHR ''-'') \<longrightarrow>
        (\<forall>c \<in> set stem. is_ascii c)
        \<and> title_of (stem @ ''.md'') = spec_title (stem @ ''.md''))
   \<and> ((\<forall>c \<in> set s. is_ascii c) \<and> i < length s \<longrightarrow>
        py_title s ! i =
          (if i = 0 \<or> \<not> is_cased (s ! (i - 1)) then to_upper (s ! i) else to_lower (s ! i)))
   \<and> ((\<forall>c \<in> set s. is_ascii c) \<longrightarrow>
        length (py_title s) = length s \<and> (\<forall>c \<in> set (py_title s). is_ascii c))
   \<and> (is_ascii ch \<and> \<not> is_cased ch \<longrightarrow> to_upper ch = ch \<and> to_lower ch = ch)
   \<and> ((\<forall>c \<in> set filename. is_ascii c) \<longrightarrow>
        file_section filename content =
          ''## '' @ title_of filename @ ''\<newline>\<newline>''
            @ adjust_header_levels (skip_frontmatter content) @ ''\<newline>\<newline>'')
   \<and> section_header ''my-doc-name.md'' = ''## My Doc Name\<newline>\<newline>''"
proof -
  let ?h = "\<lambda>c. if c = CHR ''-'' then CHR '' '' else c"
  have r: "py_replace ''-'' '' '' t = map ?h t" for t
    by (rule py_replace_char)
  have c1: "(\<forall>c \<in> set stem. is_ascii c) \<and> CHR ''/'' \<notin> set stem
      \<and> (\<exists>c \<in> set stem. c \<noteq> CHR ''.'') \<longrightarrow>
      title_of (stem @ ''.md'') = py_title (map ?h stem)"
  proof
    assume a: "(\<forall>c \<in> set stem. is_ascii c) \<and> CHR ''/'' \<notin> set stem
      \<and> (\<exists>c \<in> set stem. c \<noteq> CHR ''.'')"
    then have "splitext (stem @ ''.md'') = (stem, ''.md'')"
      by (intro splitext_md) simp_all
    then show "title_of (stem @ ''.md'') = py_title (map ?h stem)"
      by (simp only: title_of_def r fst_conv)
  qed
  have c2: "stem \<noteq> [] \<and> (\<forall>c \<in> set stem. is_lower c \<or> c = CHR ''-'') \<longrightarrow>
        (\<forall>c \<in> set stem. is_ascii c)
        \<and> title_of (stem @ ''.md'') = spec_title (stem @ ''.md'')"
  proof
    assume a: "stem \<noteq> [] \<and> (\<forall>c \<in> set stem. is_lower c \<or> c = CHR ''-'')"
    then obtain c0 where c0: "c0 \<in> set stem" by (cases stem) auto
    have nl: "\<not> is_lower (CHR ''/'')" "\<not> is_lower (CHR ''.'')"
      by (simp_all add: is_lower_def ascii_lowercase_def)
    from a nl have s: "CHR ''/'' \<notin> set stem" by auto
    from a nl c0 have "c0 \<noteq> CHR ''.''" by auto
    with c0 have d: "\<exists>c \<in> set stem. c \<noteq> CHR ''.''" by blast
    have e: "splitext (stem @ ''.md'') = (stem, ''.md'')"
      using s d by (rule splitext_md)
    from a have "\<forall>c \<in> set (map ?h stem). is_lower c \<or> c = CHR '' ''" by auto
    then have "title_from False (map ?h stem) = capitalize_words True (map ?h stem)"
      using title_from_capitalize[of "map ?h stem" False] by simp
    then have "title_of (stem @ ''.md'') = spec_title (stem @ ''.md'')"
      by (simp add: title_of_def spec_title_def e r py_title_def)
    moreover have "\<forall>c \<in> set stem. is_ascii c"
    proof
      fix c assume "c \<in> set stem"
      with a have "is_lower c \<or> c = CHR ''-''" by blast
      then show "is_ascii c"
      proof
        assume "is_lower c"
        then show ?thesis by (rule lower_ascii)
      next
        assume "c = CHR ''-''"
        then show ?thesis by (simp add: is_ascii_def)
      qed
    qed
    ultimately show "(\<forall>c \<in> set stem. is_ascii c)
        \<and> title_of (stem @ ''.md'') = spec_title (stem @ ''.md'')"
      by blast
  qed
  have c3: "(\<forall>c \<in> set s. is_ascii c) \<and> i < length s \<longrightarrow>
        py_title s ! i =
          (if i = 0 \<or> \<not> is_cased (s ! (i - 1)) then to_upper (s ! i) else to_lower (s ! i))"
    by (simp add: py_title_def title_from_nth)
  have c4: "(\<forall>c \<in> set s. is_ascii c) \<longrightarrow>
        length (py_title s) = length s \<and> (\<forall>c \<in> set (py_title s). is_ascii c)"
  proof (intro impI conjI)
    show "length (py_title s) = length s"
      by (simp only: py_title_def title_from_length)
    assume "\<forall>c \<in> set s. is_ascii c"
    then have "list_all is_ascii s" by (simp only: list_all_iff)
    then have "list_all is_ascii (title_from False s)" by (rule title_from_ascii)
    then show "\<forall>c \<in> set (py_title s). is_ascii c"
      by (simp only: py_title_def list_all_iff)
  qed
  have c5: "is_ascii ch \<and> \<not> is_cased ch \<longrightarrow> to_upper ch = ch \<and> to_lower ch = ch"
    by (simp add: is_cased_def to_upper_id to_lower_id)
  have c6: "(\<forall>c \<in> set filename. is_ascii c) \<longrightarrow>
        file_section filename content =
          ''## '' @ title_of filename @ ''\<newline>\<newline>''
            @ adjust_header_levels (skip_frontmatter content) @ ''\<newline>\<newline>''"
    by (simp add: file_section_def section_header_def)
  have c7: "section_header ''my-doc-name.md'' = ''## My Doc Name\<newline>\<newline>''"
    by code_simp
  from c1 c2 c3 c4 c5 c6 c7 show ?thesis by (intro conjI)
qed

theorem section_title_witness:
  "list_all is_ascii ''my-doc-name''
   \<and> CHR ''/'' \<notin> set ''my-doc-name''
   \<and> (\<exists>c \<in> set ''my-doc-name''. c \<noteq> CHR ''.'')
   \<and> list_all (\<lambda>c. is_lower c \<or> c = CHR ''-'') ''my-doc-name''
   \<and> title_of ''my-doc-name.md'' = py_title ''my doc name''
   \<and> title_of ''my-doc-name.md'' = spec_title ''my-doc-name.md''
   \<and> list_all is_ascii ''faq''
   \<and> (1::nat) < length ''faq''
   \<and> py_title ''faq'' ! 1 = to_lower (CHR ''a'')
   \<and> length (py_title ''faq'') = length ''faq''
   \<and> is_ascii (CHR ''-'')
   \<and> \<not> is_cased (CHR ''-'')
   \<and> to_upper (CHR ''-'') = CHR ''-''
   \<and> list_all is_ascii ''faq.md''
   \<and> file_section ''faq.md'' ''x'' =
       ''## '' @ title_of ''faq.md'' @ ''\<newline>\<newline>''
         @ adjust_header_levels (skip_frontmatter ''x'') @ ''\<newline>\<newline>''"
proof -
  have a1: "list_all is_ascii ''my-doc-name''" and a2: "list_all is_ascii ''faq''"
    and a3: "is_ascii (CHR ''-'')" and a4: "list_all is_ascii ''faq.md''"
    by (simp_all add: is_ascii_def)
  have h1: "CHR ''/'' \<notin> set ''my-doc-name'' \<and> (\<exists>c \<in> set ''my-doc-name''. c \<noteq> CHR ''.'')"
    by simp
  have h2: "list_all (\<lambda>c. is_lower c \<or> c = CHR ''-'') ''my-doc-name''"
    by (simp add: is_lower_def ascii_lowercase_def)
  then have h2': "''my-doc-name'' \<noteq> [] \<and> (\<forall>c \<in> set ''my-doc-name''. is_lower c \<or> c = CHR ''-'')"
    by (simp only: list_all_iff) simp
  have h3: "(1::nat) < length ''faq''" by simp
  have h4: "\<not> is_cased (CHR ''f'') = False"
    by (simp add: is_cased_def is_lower_def ascii_lowercase_def)
  have h5: "\<not> is_cased (CHR ''-'')"
    by (simp add: is_cased_def is_lower_def is_upper_def ascii_lowercase_def ascii_uppercase_def)
  note t = section_title[where stem = "''my-doc-name''" and i = 1 and s = "''faq''"
      and ch = "CHR ''-''" and filename = "''faq.md''" and content = "''x''"]
  have "title_of (''my-doc-name'' @ ''.md'') =
      py_title (map (\<lambda>c. if c = CHR ''-'' then CHR '' '' else c) ''my-doc-name'')"
    by (rule mp[OF t[THEN conjunct1]]) (simp add: is_ascii_def)
  then have c1: "title_of ''my-doc-name.md'' = py_title ''my doc name''" by simp
  have "(\<forall>c \<in> set ''my-doc-name''. is_ascii c)
      \<and> title_of (''my-doc-name'' @ ''.md'') = spec_title (''my-doc-name'' @ ''.md'')"
    by (rule mp[OF t[THEN conjunct2, THEN conjunct1]]) (rule h2')
  then have c2: "title_of ''my-doc-name.md'' = spec_title ''my-doc-name.md''" by simp
  have "py_title ''faq'' ! 1 =
          (if (1::nat) = 0 \<or> \<not> is_cased (''faq'' ! (1 - 1)) then to_upper (''faq'' ! 1) else to_lower (''faq'' ! 1))"
    by (rule mp[OF t[THEN conjunct2, THEN conjunct2, THEN conjunct1]]) (simp add: is_ascii_def)
  with h4 have c3: "py_title ''faq'' ! 1 = to_lower (CHR ''a'')" by simp
  have "length (py_title ''faq'') = length ''faq'' \<and> (\<forall>c \<in> set (py_title ''faq''). is_ascii c)"
    by (rule mp[OF t[THEN conjunct2, THEN conjunct2, THEN conjunct2, THEN conjunct1]])
      (simp add: is_ascii_def)
  then have c3': "length (py_title ''faq'') = length ''faq''" by (rule conjunct1)
  have "to_upper (CHR ''-'') = CHR ''-'' \<and> to_lower (CHR ''-'') = CHR ''-''"
    by (rule mp[OF t[THEN conjunct2, THEN conjunct2, THEN conjunct2, THEN conjunct2, THEN conjunct1]])
      (simp add: a3 h5)
  then have c4: "to_upper (CHR ''-'') = CHR ''-''" by (rule conjunct1)
  have c5: "file_section ''faq.md'' ''x'' =
       ''## '' @ title_of ''faq.md'' @ ''\<newline>\<newline>''
         @ adjust_header_levels (skip_frontmatter ''x'') @ ''\<newline>\<newline>''"
    by (rule mp[OF t[THEN conjunct2, THEN conjunct2, THEN conjunct2, THEN conjunct2, THEN conjunct2,
            THEN conjunct1]])
      (simp add: is_ascii_def)
  from a1 a2 a3 a4 h1 h2 h3 h5 c1 c2 c3 c3' c4 c5 show ?thesis by (intro conjI) simp_all
qed

subsection \<open>The file named \<^verbatim>\<open>.md\<close>\<close>

text \<open>
  C9, as stated, fails in its second half: \<^verbatim>\<open>.md\<close> passes the filter, but
  \<^verbatim>\<open>os.path.splitext\<close> counts a leading dot as part of the root, so the root of \<^verbatim>\<open>.md\<close> is
  \<^verbatim>\<open>.md\<close> and the title is \<^verbatim>\<open>.Md\<close>, not empty.
\<close>

theorem dotfile_section_counterexample:
  "included ''.md''
   \<and> fst (splitext ''.md'') = ''.md''
   \<and> section_header ''.md'' = ''## .Md\<newline>\<newline>''
   \<and> section_header ''.md'' \<noteq> ''## \<newline>\<newline>''"
  by code_simp

text \<open>
  C9, amended. The name \<^verbatim>\<open>.md\<close> passes the inclusion filter, and its section is the heading
  \<^verbatim>\<open>## .Md\<close>, a blank line, the demoted content and two newlines; a directory that lists
  only \<^verbatim>\<open>.md\<close> gives exactly that output file.
\<close>

theorem dotfile_section:
  "included ''.md''
   \<and> file_section ''.md'' content =
       ''## .Md\<newline>\<newline>'' @ adjust_header_levels (skip_frontmatter content) @ ''\<newline>\<newline>''
   \<and> (out_writable fs \<and> listdir fs = Some [''.md'']
        \<and> read_text fs ''docs/code-howtos/.md'' = Some content \<longrightarrow>
      main fs = (Inr (), fs\<lparr>out_content :=
        Some (''## .Md\<newline>\<newline>'' @ adjust_header_levels (skip_frontmatter content) @ ''\<newline>\<newline>'')\<rparr>))"
proof (intro conjI impI)
  show i: "included ''.md''"
    by (simp add: included_def endswith_def)
  have h: "section_header ''.md'' = ''## .Md\<newline>\<newline>''"
    by code_simp
  show f: "file_section ''.md'' content =
       ''## .Md\<newline>\<newline>'' @ adjust_header_levels (skip_frontmatter content) @ ''\<newline>\<newline>''"
    by (simp only: file_section_def h)
  have p: "path_join docs_path ''.md'' = ''docs/code-howtos/.md''"
    by (simp add: path_join_def docs_path_def startswith_def endswith_def suffix_to_prefix)
  assume a: "out_writable fs \<and> listdir fs = Some [''.md'']
        \<and> read_text fs ''docs/code-howtos/.md'' = Some content"
  then have "\<forall>f \<in> set [''.md'']. included f \<longrightarrow> read_text fs (path_join docs_path f) \<noteq> None"
    by (simp add: p)
  with a have "main fs = (Inr (), fs\<lparr>out_content :=
      Some (concat (map (\<lambda>f. file_section f (the (read_text fs (path_join docs_path f))))
                      (filter included (sort [''.md'']))))\<rparr>)"
    by (intro main_ok) simp_all
  with a i show "main fs = (Inr (), fs\<lparr>out_content :=
        Some (''## .Md\<newline>\<newline>'' @ adjust_header_levels (skip_frontmatter content) @ ''\<newline>\<newline>'')\<rparr>)"
    by (simp add: p f del: append.simps)
qed

theorem dotfile_section_witness:
  "out_writable dotfile_fs \<and> listdir dotfile_fs = Some [''.md'']
   \<and> read_text dotfile_fs ''docs/code-howtos/.md'' = Some ''# T''
   \<and> main dotfile_fs = (Inr (), dotfile_fs\<lparr>out_content :=
        Some (''## .Md\<newline>\<newline>'' @ adjust_header_levels (skip_frontmatter ''# T'') @ ''\<newline>\<newline>'')\<rparr>)
   \<and> adjust_header_levels (skip_frontmatter ''# T'') = ''## T''"
proof -
  have h: "out_writable dotfile_fs \<and> listdir dotfile_fs = Some [''.md'']
        \<and> read_text dotfile_fs ''docs/code-howtos/.md'' = Some ''# T''"
    by (simp add: dotfile_fs_def)
  have e: "adjust_header_levels (skip_frontmatter ''# T'') = ''## T''"
    by code_simp
  from dotfile_section[of "''# T''" dotfile_fs] h e show ?thesis by blast
qed

end
